theory Spec2Isabelle
  imports Main "HOL-Library.Multiset"
begin

section \<open>Python values\<close>

text \<open>
  The source text is a Python \<open>str\<close>: a sequence of Unicode code points, so that
  \<open>len\<close> counts code points and \<open>splitlines\<close> sees every line boundary of Python.
  Identifiers, rule names and messages are ASCII and are written as HOL strings.
\<close>

type_synonym pystr = "nat list"

text \<open>The exceptions the program can raise: the parser's, and those of the tree accesses.\<close>

datatype error = SyntaxError | IndexError | TypeError | AttributeError

text \<open>A value of a rule override: an int, a bool or \<open>None\<close>.\<close>

datatype pyval = PyInt int | PyBool bool | PyNone

text \<open>A dict of rule overrides: its items in insertion order, each key once.\<close>

type_synonym pydict = "(string \<times> pyval) list"

text \<open>\<open>'{}'.format(n)\<close> for an int: its decimal digits, with a sign when negative.\<close>

definition digit :: "nat \<Rightarrow> char" where
  "digit d = ''0123456789'' ! d"

function str_nat :: "nat \<Rightarrow> string" where
  "str_nat n = (if n < 10 then [digit n] else str_nat (n div 10) @ [digit (n mod 10)])"
  by pat_completeness auto
termination
  by (relation "measure (\<lambda>n. n)") auto

declare str_nat.simps [simp del]

definition str_int :: "int \<Rightarrow> string" where
  "str_int i = (if i < 0 then CHR ''-'' # str_nat (nat (- i)) else str_nat (nat i))"

text \<open>
  \<open>str.splitlines()\<close>: the text is cut at every line boundary (\<open>\n\<close>, \<open>\r\<close>, \<open>\r\n\<close>,
  \<open>\v\<close>, \<open>\f\<close>, \<open>\x1c\<close>, \<open>\x1d\<close>, \<open>\x1e\<close>, \<open>\x85\<close>, U+2028, U+2029), the boundaries are
  dropped, and a boundary at the very end opens no further line.
\<close>

definition is_line_boundary :: "nat \<Rightarrow> bool" where
  "is_line_boundary c \<longleftrightarrow> c \<in> {10, 11, 12, 13, 28, 29, 30, 133, 8232, 8233}"

fun splitlines_from :: "pystr \<Rightarrow> pystr \<Rightarrow> pystr list" where
  "splitlines_from cur [] = (if cur = [] then [] else [cur])"
| "splitlines_from cur [c] = (if is_line_boundary c then [cur] else [cur @ [c]])"
| "splitlines_from cur (c # d # cs) =
     (if c = 13 \<and> d = 10 then cur # splitlines_from [] cs
      else if is_line_boundary c then cur # splitlines_from [] (d # cs)
      else splitlines_from (cur @ [c]) (d # cs))"

definition splitlines :: "pystr \<Rightarrow> pystr list" where
  "splitlines s = splitlines_from [] s"


section \<open>The syntax tree of the \<open>ast\<close> module\<close>

text \<open>
  A node of \<open>ast\<close> has a class, the fields its class declares in \<open>_fields\<close>, each with a
  value, and the attributes \<open>lineno\<close> and \<open>col_offset\<close> when its class carries a position
  (statements and expressions do; \<open>Module\<close>, \<open>Load\<close>, \<open>arguments\<close> do not). A field holds a
  node, a list of nodes, or something that is no node (an identifier, a constant, \<open>None\<close>).
\<close>

datatype 'a field = Child 'a | Children "'a list" | Atom

datatype node = Node (kind: string) (node_fields: "(string \<times> node field) list")
  (lineno: "int option") (col_offset: "int option")

text \<open>\<open>ast.iter_child_nodes\<close>: the nodes in the fields, in the order of \<open>_fields\<close>.\<close>

definition field_nodes :: "node field \<Rightarrow> node list" where
  "field_nodes v = (case v of Child n \<Rightarrow> [n] | Children ns \<Rightarrow> ns | Atom \<Rightarrow> [])"

definition iter_child_nodes :: "node \<Rightarrow> node list" where
  "iter_child_nodes n = concat (map (\<lambda>(name, v). field_nodes v) (node_fields n))"

lemma size_field_nodes: "sum_list (map size (field_nodes v)) \<le> size_field size v"
  by (cases v) (auto simp: field_nodes_def size_list_conv_sum_list)

lemma size_iter_child_nodes: "sum_list (map size (iter_child_nodes n)) < size n"
proof (cases n)
  case (Node k fs l c)
  have "sum_list (map size (concat (map (\<lambda>(name, v). field_nodes v) fs)))
        \<le> size_list (size_prod (\<lambda>_. 0) (size_field size)) fs"
  proof (induction fs)
    case Nil
    show ?case by simp
  next
    case (Cons p ps)
    obtain nm v where p: "p = (nm, v)" by (cases p)
    show ?case using Cons size_field_nodes [of v] by (simp add: p)
  qed
  then show ?thesis by (simp add: Node iter_child_nodes_def)
qed

lemma size_child: "m \<in> set (iter_child_nodes n) \<Longrightarrow> size m < size n"
proof -
  assume "m \<in> set (iter_child_nodes n)"
  then have "size m \<le> sum_list (map size (iter_child_nodes n))"
    by (simp add: member_le_sum_list)
  then show ?thesis using size_iter_child_nodes [of n] by simp
qed

text \<open>
  \<open>ast.walk\<close>: a queue that starts with the node; the front node is taken out, its
  children are appended to the queue, and the node is yielded (breadth first).
\<close>

function walk_queue :: "node list \<Rightarrow> node list" where
  "walk_queue [] = []"
| "walk_queue (n # todo) = n # walk_queue (todo @ iter_child_nodes n)"
  by pat_completeness auto
termination
proof (relation "measure (\<lambda>q. sum_list (map size q))")
  show "wf (measure (\<lambda>q. sum_list (map size q)))" by simp
next
  fix n :: node and todo
  show "(todo @ iter_child_nodes n, n # todo) \<in> measure (\<lambda>q. sum_list (map size q))"
    using size_iter_child_nodes [of n] by simp
qed

definition walk :: "node \<Rightarrow> node list" where
  "walk n = walk_queue [n]"

text \<open>\<open>'body' in node._fields\<close>\<close>

definition has_body :: "node \<Rightarrow> bool" where
  "has_body n \<longleftrightarrow> ''body'' \<in> set (map fst (node_fields n))"

text \<open>
  \<open>node.body[0]\<close>: the attribute \<open>body\<close> is the value of the field; indexing an empty list
  raises IndexError, and a body that is a single expression (\<open>Lambda\<close>, \<open>IfExp\<close>) or no
  node at all cannot be indexed.
\<close>

definition body0 :: "node \<Rightarrow> error + node" where
  "body0 n =
     (case map_of (node_fields n) ''body'' of
        None \<Rightarrow> Inl AttributeError
      | Some (Children []) \<Rightarrow> Inl IndexError
      | Some (Children (x # xs)) \<Rightarrow> Inr x
      | Some (Child e) \<Rightarrow> Inl TypeError
      | Some Atom \<Rightarrow> Inl TypeError)"


section \<open>CodeErrors\<close>

text \<open>Each message is returned only under its guard; otherwise the method returns \<open>None\<close>.\<close>

definition line_too_long :: "int \<Rightarrow> int \<Rightarrow> string option" where
  "line_too_long actual allowed =
     (if actual > allowed
      then Some (''line too long ('' @ str_int actual @ '' > '' @ str_int allowed @ '')'')
      else None)"

definition multiple_expressions :: "string option" where
  "multiple_expressions = Some ''multiple expressions on the same line''"

definition nesting_too_deep :: "int \<Rightarrow> int \<Rightarrow> string option" where
  "nesting_too_deep actual allowed =
     (if actual > allowed
      then Some (''nesting too deep ('' @ str_int actual @ '' > '' @ str_int allowed @ '')'')
      else None)"

definition indentation :: "int \<Rightarrow> int \<Rightarrow> string option" where
  "indentation actual allowed =
     (if actual > allowed
      then Some (''indentation is '' @ str_int actual @ '' instead of '' @ str_int allowed)
      else None)"


section \<open>CodeAnalyzer\<close>

text \<open>
  \<open>RULES\<close>, the class-level dict of defaults. Its keys are fixed, so it is a record with
  one field per key; a value \<open>None\<close> is \<open>None\<close> of an option type.
\<close>

record rule_set =
  rule_line_length :: int
  rule_forbid_semicolons :: bool
  rule_max_nesting :: "int option"
  rule_indentation_size :: int
  rule_methods_per_class :: "int option"
  rule_max_arity :: "int option"
  rule_forbid_trailing_whitespace :: bool
  rule_max_lines_per_function :: "int option"

definition RULES :: rule_set where
  "RULES = \<lparr> rule_line_length = 79,
             rule_forbid_semicolons = True,
             rule_max_nesting = None,
             rule_indentation_size = 4,
             rule_methods_per_class = None,
             rule_max_arity = None,
             rule_forbid_trailing_whitespace = True,
             rule_max_lines_per_function = None \<rparr>"

definition rule_names :: "string list" where
  "rule_names = [''line_length'', ''forbid_semicolons'', ''max_nesting'', ''indentation_size'',
     ''methods_per_class'', ''max_arity'', ''forbid_trailing_whitespace'',
     ''max_lines_per_function'']"

text \<open>
  \<open>issues\<close> is a \<open>defaultdict(set)\<close>: a line number is a key once something was added
  under it. The members are what the methods of CodeErrors return.
\<close>

type_synonym issues = "int \<rightharpoonup> string option set"

definition add_issue :: "issues \<Rightarrow> int \<Rightarrow> string option \<Rightarrow> issues" where
  "add_issue iss line msg = iss(line \<mapsto> insert msg (case iss line of None \<Rightarrow> {} | Some s \<Rightarrow> s))"

record CodeAnalyzer =
  parsed_code :: node
  code :: pystr
  rules :: "pydict option"
  issues :: issues

text \<open>
  \<open>__init__\<close>: \<open>ast.parse\<close> is the parser of the standard library, a parameter here; it
  returns the \<open>Module\<close> node of the text or raises.
\<close>

definition CodeAnalyzer_init ::
  "(pystr \<Rightarrow> error + node) \<Rightarrow> pystr \<Rightarrow> pydict option \<Rightarrow> error + CodeAnalyzer" where
  "CodeAnalyzer_init parse src rs =
     (case parse src of
        Inl e \<Rightarrow> Inl e
      | Inr tree \<Rightarrow> Inr \<lparr> parsed_code = tree, code = src, rules = rs, issues = Map.empty \<rparr>)"

definition get_instance_methods :: "string set" where
  "get_instance_methods = {''analyze'', ''forbid_semicolons'', ''forbid_trailing_whitespace'',
     ''get_instance_methods'', ''indentation_size'', ''line_length'', ''max_arity'',
     ''max_lines_per_function'', ''max_nesting'', ''methods_per_class''}"

text \<open>
  A method of CodeAnalyzer takes the object and returns it with the issues it added. A
  method that can raise returns the exception instead: the caller of \<open>analyze\<close> then gets
  the exception and no value.
\<close>

definition line_length :: "CodeAnalyzer \<Rightarrow> CodeAnalyzer" where
  "line_length self =
     (let default_length = rule_line_length RULES in
      self\<lparr>issues :=
        fold (\<lambda>(i, line) iss.
                let len = int (length line) in
                if len > default_length
                then add_issue iss (int i + 1) (line_too_long len default_length)
                else iss)
             (enumerate 0 (splitlines (code self))) (issues self)\<rparr>)"

text \<open>\<open>re.search('(;)', line)\<close> finds a match exactly when the line has a semicolon, code point 59.\<close>

definition forbid_semicolons :: "CodeAnalyzer \<Rightarrow> CodeAnalyzer" where
  "forbid_semicolons self =
     self\<lparr>issues :=
       fold (\<lambda>(i, line) iss.
               if 59 \<in> set line then add_issue iss (int i + 1) multiple_expressions else iss)
            (enumerate 0 (splitlines (code self))) (issues self)\<rparr>"

text \<open>
  The limit of \<open>max_nesting\<close> is its local variable, \<^verbatim>\<open>max_nesting_level = 3  # max_nesting\<close>;
  the method does not read \<open>RULES\<close>.
\<close>

definition max_nesting_level :: int where
  "max_nesting_level = 3"

definition max_nesting :: "CodeAnalyzer \<Rightarrow> error + CodeAnalyzer" where
  "max_nesting self =
     (case body0 (parsed_code self) of
        Inl e \<Rightarrow> Inl e
      | Inr first_stmt \<Rightarrow>
          let nodes = filter has_body (walk first_stmt);
              nesting_level = int (length nodes)
          in if nesting_level > max_nesting_level
             then (case lineno (nodes ! (length nodes - 1)) of
                     None \<Rightarrow> Inl AttributeError
                   | Some l \<Rightarrow>
                       Inr (self\<lparr>issues := add_issue (issues self) (l + 1)
                                  (nesting_too_deep nesting_level max_nesting_level)\<rparr>))
             else Inr self)"

text \<open>
  The loop of \<open>indentation_size\<close> over the nodes of the walk; its state is \<open>last_offset\<close>
  and the issues.
\<close>

fun indentation_loop :: "int \<Rightarrow> node list \<Rightarrow> int \<times> issues \<Rightarrow> error + int \<times> issues" where
  "indentation_loop indent [] st = Inr st"
| "indentation_loop indent (n # ns) (last_offset, iss) =
     (if has_body n
      then (case body0 n of
              Inl e \<Rightarrow> Inl e
            | Inr child \<Rightarrow>
                (case lineno child of
                   None \<Rightarrow> Inl AttributeError
                 | Some l \<Rightarrow>
                     (case col_offset child of
                        None \<Rightarrow> Inl AttributeError
                      | Some c \<Rightarrow>
                          indentation_loop indent ns
                            (c, if c > last_offset + indent
                                then add_issue iss l (indentation (c - last_offset) indent)
                                else iss))))
      else indentation_loop indent ns (last_offset, iss))"

definition indentation_size :: "CodeAnalyzer \<Rightarrow> error + CodeAnalyzer" where
  "indentation_size self =
     (case indentation_loop (rule_indentation_size RULES) (walk (parsed_code self))
             (0, issues self) of
        Inl e \<Rightarrow> Inl e
      | Inr (last_offset, iss) \<Rightarrow> Inr (self\<lparr>issues := iss\<rparr>))"

text \<open>The four methods whose body is \<open>pass\<close>.\<close>

definition methods_per_class :: "CodeAnalyzer \<Rightarrow> CodeAnalyzer" where
  "methods_per_class self = self"

definition max_arity :: "CodeAnalyzer \<Rightarrow> CodeAnalyzer" where
  "max_arity self = self"

definition forbid_trailing_whitespace :: "CodeAnalyzer \<Rightarrow> CodeAnalyzer" where
  "forbid_trailing_whitespace self = self"

definition max_lines_per_function :: "CodeAnalyzer \<Rightarrow> CodeAnalyzer" where
  "max_lines_per_function self = self"

text \<open>\<open>getattr(type(self), method)(self)\<close> for the names \<open>analyze\<close> iterates over.\<close>

definition call_method :: "string \<Rightarrow> CodeAnalyzer \<Rightarrow> error + CodeAnalyzer" where
  "call_method method self =
     (if method = ''line_length'' then Inr (line_length self)
      else if method = ''forbid_semicolons'' then Inr (forbid_semicolons self)
      else if method = ''max_nesting'' then max_nesting self
      else if method = ''indentation_size'' then indentation_size self
      else if method = ''methods_per_class'' then Inr (methods_per_class self)
      else if method = ''max_arity'' then Inr (max_arity self)
      else if method = ''forbid_trailing_whitespace'' then Inr (forbid_trailing_whitespace self)
      else if method = ''max_lines_per_function'' then Inr (max_lines_per_function self)
      else Inl AttributeError)"

fun call_methods :: "string list \<Rightarrow> CodeAnalyzer \<Rightarrow> error + CodeAnalyzer" where
  "call_methods [] self = Inr self"
| "call_methods (method # methods) self =
     (case call_method method self of
        Inl e \<Rightarrow> Inl e
      | Inr self' \<Rightarrow> call_methods methods self')"

text \<open>
  \<open>methods\<close> is a set of strings, and a \<open>for\<close> over a set visits its members once each in
  an order the interpreter chooses. The order is the parameter \<open>order\<close> of \<open>analyze\<close>; the
  orders that can occur are those with \<open>iteration_order order analyze_methods\<close>.
\<close>

definition iteration_order :: "string list \<Rightarrow> string set \<Rightarrow> bool" where
  "iteration_order order s \<longleftrightarrow> distinct order \<and> set order = s"

definition analyze_methods :: "string set" where
  "analyze_methods = get_instance_methods - {''analyze''} - {''get_instance_methods''}"

text \<open>The truth value of \<open>self.rules\<close>: \<open>None\<close> and the empty dict are false.\<close>

definition truthy :: "pydict option \<Rightarrow> bool" where
  "truthy rs = (case rs of None \<Rightarrow> False | Some d \<Rightarrow> d \<noteq> [])"

definition analyze :: "string list \<Rightarrow> CodeAnalyzer \<Rightarrow> error + issues" where
  "analyze order self =
     (if \<not> truthy (rules self)
      then (case call_methods order self of
              Inl e \<Rightarrow> Inl e
            | Inr self' \<Rightarrow> Inr (issues self'))
      else Inr (issues self))"

text \<open>
  \<open>critic(code, **rules)\<close>: the keyword arguments are collected in the dict \<open>rules\<close>. A
  keyword argument named \<open>code\<close> is not collected: it is bound to the parameter \<open>code\<close>,
  which the positional argument has bound already, and the call raises TypeError (multiple
  values for argument \<open>code\<close>) before the body of \<open>critic\<close> runs.
\<close>

definition critic ::
  "(pystr \<Rightarrow> error + node) \<Rightarrow> string list \<Rightarrow> pystr \<Rightarrow> pydict \<Rightarrow> error + issues" where
  "critic parse order src rs =
     (if ''code'' \<in> set (map fst rs) then Inl TypeError
      else (case CodeAnalyzer_init parse src None of
              Inl e \<Rightarrow> Inl e
            | Inr self \<Rightarrow> analyze order self))"


section \<open>The subtree of a node, as the specification words it\<close>

text \<open>
  The nodes of the subtree rooted at a node, the node first and then the subtrees of its
  children in order (depth first, pre-order), and the number of body-bearing nodes among
  them. The checks do not use these; \<open>max_nesting\<close> is compared with them below.
\<close>

function subtree :: "node \<Rightarrow> node list" where
  "subtree n = n # concat (map subtree (iter_child_nodes n))"
  by pat_completeness auto
termination
  by (relation "measure size") (auto simp: size_child)

declare subtree.simps [simp del]

definition body_bearing_count :: "node \<Rightarrow> nat" where
  "body_bearing_count n = length (filter has_body (subtree n))"

text \<open>
  Breadth-first order, level by level: the nodes of a level in their order, then the
  level of their children.
\<close>

definition next_level :: "node list \<Rightarrow> node list" where
  "next_level q = concat (map iter_child_nodes q)"

lemma size_next_level:
  "q \<noteq> [] \<Longrightarrow> sum_list (map size (next_level q)) < sum_list (map size q)"
proof (induction q)
  case Nil
  then show ?case by simp
next
  case (Cons n q)
  show ?case
  proof (cases "q = []")
    case True
    then show ?thesis using size_iter_child_nodes [of n] by (simp add: next_level_def)
  next
    case False
    then show ?thesis
      using Cons.IH size_iter_child_nodes [of n] by (simp add: next_level_def)
  qed
qed

function levels :: "node list \<Rightarrow> node list list" where
  "levels q = (if q = [] then [] else q # levels (next_level q))"
  by pat_completeness auto
termination
  by (relation "measure (\<lambda>q. sum_list (map size q))") (auto simp: size_next_level)

declare levels.simps [simp del]







section \<open>Sample programs\<close>

text \<open>
  Source texts with the trees \<open>ast.parse\<close> returns for them. Positions are \<open>lineno\<close>
  (from 1) and \<open>col_offset\<close> (from 0).
\<close>

definition text_of :: "string \<Rightarrow> pystr" where
  "text_of s = map of_char s"

definition Load_node :: node where
  "Load_node = Node ''Load'' [] None None"

definition Name_node :: "int \<Rightarrow> int \<Rightarrow> node" where
  "Name_node l c = Node ''Name'' [(''id'', Atom), (''ctx'', Child Load_node)] (Some l) (Some c)"

definition Expr_node :: "int \<Rightarrow> int \<Rightarrow> node \<Rightarrow> node" where
  "Expr_node l c v = Node ''Expr'' [(''value'', Child v)] (Some l) (Some c)"

definition Pass_node :: "int \<Rightarrow> int \<Rightarrow> node" where
  "Pass_node l c = Node ''Pass'' [] (Some l) (Some c)"

definition If_node :: "int \<Rightarrow> int \<Rightarrow> node \<Rightarrow> node list \<Rightarrow> node list \<Rightarrow> node" where
  "If_node l c test body orelse =
     Node ''If'' [(''test'', Child test), (''body'', Children body), (''orelse'', Children orelse)]
       (Some l) (Some c)"

definition Module_node :: "node list \<Rightarrow> node" where
  "Module_node body = Node ''Module'' [(''body'', Children body)] None None"

text \<open>The empty text.\<close>

definition empty_src :: pystr where
  "empty_src = []"

definition empty_tree :: node where
  "empty_tree = Module_node []"

text \<open>\<^verbatim>\<open>pass\<close>\<close>

definition pass_src :: pystr where
  "pass_src = text_of ''pass''"

definition pass_tree :: node where
  "pass_tree = Module_node [Pass_node 1 0]"

text \<open>
  Four conditionals, each in the body of the one before, and \<^verbatim>\<open>pass\<close> innermost:
  \<^verbatim>\<open>if a:\<close>, \<^verbatim>\<open>    if b:\<close>, \<^verbatim>\<open>        if c:\<close>, \<^verbatim>\<open>            if d:\<close>,
  \<^verbatim>\<open>                pass\<close>.
\<close>

definition nested_src :: pystr where
  "nested_src = text_of ''if a:'' @ [10] @ text_of ''    if b:'' @ [10]
     @ text_of ''        if c:'' @ [10] @ text_of ''            if d:'' @ [10]
     @ text_of ''                pass'' @ [10]"

definition nested_tree :: node where
  "nested_tree = Module_node
     [If_node 1 0 (Name_node 1 3)
       [If_node 2 4 (Name_node 2 7)
         [If_node 3 8 (Name_node 3 11)
           [If_node 4 12 (Name_node 4 15) [Pass_node 5 16] []] []] []] []]"

text \<open>
  A function with a conditional that holds a second one, and a third after them:
  \<^verbatim>\<open>def f():\<close>, \<^verbatim>\<open>    if a:\<close>, \<^verbatim>\<open>        if b:\<close>, \<^verbatim>\<open>            pass\<close>,
  \<^verbatim>\<open>    if c:\<close>, \<^verbatim>\<open>        pass\<close>.
\<close>

definition arguments_node :: node where
  "arguments_node = Node ''arguments''
     [(''args'', Children []), (''vararg'', Atom), (''kwonlyargs'', Children []),
      (''kw_defaults'', Children []), (''kwarg'', Atom), (''defaults'', Children [])]
     None None"

definition FunctionDef_node :: "int \<Rightarrow> int \<Rightarrow> node list \<Rightarrow> node" where
  "FunctionDef_node l c body = Node ''FunctionDef''
     [(''name'', Atom), (''args'', Child arguments_node), (''body'', Children body),
      (''decorator_list'', Children []), (''returns'', Atom)]
     (Some l) (Some c)"

definition branch_src :: pystr where
  "branch_src = text_of ''def f():'' @ [10] @ text_of ''    if a:'' @ [10]
     @ text_of ''        if b:'' @ [10] @ text_of ''            pass'' @ [10]
     @ text_of ''    if c:'' @ [10] @ text_of ''        pass'' @ [10]"

definition branch_def :: node where
  "branch_def = FunctionDef_node 1 0
     [If_node 2 4 (Name_node 2 7) [If_node 3 8 (Name_node 3 11) [Pass_node 4 12] []] [],
      If_node 5 4 (Name_node 5 7) [Pass_node 6 8] []]"

definition branch_tree :: node where
  "branch_tree = Module_node [branch_def]"

text \<open>A conditional whose body is indented by four: \<^verbatim>\<open>if a:\<close>, \<^verbatim>\<open>    pass\<close>.\<close>

definition indent4_src :: pystr where
  "indent4_src = text_of ''if a:'' @ [10] @ text_of ''    pass'' @ [10]"

definition indent4_tree :: node where
  "indent4_tree = Module_node [If_node 1 0 (Name_node 1 3) [Pass_node 2 4] []]"

text \<open>A conditional whose body is indented by five: \<^verbatim>\<open>if a:\<close>, \<^verbatim>\<open>     pass\<close>.\<close>

definition indent5_src :: pystr where
  "indent5_src = text_of ''if a:'' @ [10] @ text_of ''     pass'' @ [10]"

definition indent5_tree :: node where
  "indent5_tree = Module_node [If_node 1 0 (Name_node 1 3) [Pass_node 2 5] []]"

text \<open>One line, a name of eighty letters \<^verbatim>\<open>x\<close>.\<close>

definition long_src :: pystr where
  "long_src = text_of
     (''xxxxxxxxxxxxxxxxxxxxxxxxxxxxxxxxxxxxxxxx'' @ ''xxxxxxxxxxxxxxxxxxxxxxxxxxxxxxxxxxxxxxxx'')"

definition long_tree :: node where
  "long_tree = Module_node [Expr_node 1 0 (Name_node 1 0)]"

text \<open>Two expression statements on one line: \<^verbatim>\<open>a; b\<close>.\<close>

definition semi_src :: pystr where
  "semi_src = text_of ''a; b''"

definition semi_tree :: node where
  "semi_tree = Module_node [Expr_node 1 0 (Name_node 1 0), Expr_node 1 3 (Name_node 1 3)]"

text \<open>A text that is no program: \<^verbatim>\<open>if\<close>.\<close>

definition broken_src :: pystr where
  "broken_src = text_of ''if''"

text \<open>\<open>ast.parse\<close> on the sample texts.\<close>

definition ast_parse :: "pystr \<Rightarrow> error + node" where
  "ast_parse s =
     (if s = empty_src then Inr empty_tree
      else if s = pass_src then Inr pass_tree
      else if s = nested_src then Inr nested_tree
      else if s = branch_src then Inr branch_tree
      else if s = indent4_src then Inr indent4_tree
      else if s = indent5_src then Inr indent5_tree
      else if s = long_src then Inr long_tree
      else if s = semi_src then Inr semi_tree
      else Inl SyntaxError)"

text \<open>The order of \<open>dir\<close>, one of the orders in which the set of methods can be visited.\<close>

definition dir_order :: "string list" where
  "dir_order = [''forbid_semicolons'', ''forbid_trailing_whitespace'', ''indentation_size'',
     ''line_length'', ''max_arity'', ''max_lines_per_function'', ''max_nesting'',
     ''methods_per_class'']"


section \<open>Properties of the checks\<close>

subsection \<open>The walk visits the subtree, level by level\<close>

lemma mset_walk_queue: "mset (walk_queue q) = mset (concat (map subtree q))"
proof (induction q rule: walk_queue.induct)
  case 1
  show ?case by simp
next
  case (2 n todo)
  then show ?case by (simp add: subtree.simps [of n])
qed

lemma mset_walk: "mset (walk n) = mset (subtree n)"
  by (simp add: walk_def mset_walk_queue subtree.simps [of n])

lemma length_filter_walk: "length (filter P (walk n)) = length (filter P (subtree n))"
proof -
  have "mset (filter P (walk n)) = mset (filter P (subtree n))"
    by (simp add: mset_walk)
  then show ?thesis by (metis size_mset)
qed

lemma walk_queue_append:
  "walk_queue (q @ acc) = q @ walk_queue (acc @ next_level q)"
proof (induction q arbitrary: acc)
  case Nil
  show ?case by (simp add: next_level_def)
next
  case (Cons n q)
  have "walk_queue ((n # q) @ acc) = n # walk_queue (q @ (acc @ iter_child_nodes n))"
    by simp
  also have "\<dots> = n # q @ walk_queue ((acc @ iter_child_nodes n) @ next_level q)"
    by (simp only: Cons.IH)
  finally show ?case by (simp add: next_level_def)
qed

lemma walk_queue_levels: "walk_queue q = concat (levels q)"
proof (induction q rule: levels.induct)
  case (1 q)
  show ?case
  proof (cases "q = []")
    case True
    then show ?thesis by (simp add: levels.simps [of "[]"])
  next
    case False
    have "walk_queue q = q @ walk_queue (next_level q)"
      using walk_queue_append [of q "[]"] by simp
    then show ?thesis
      using False "1.IH" by (simp add: levels.simps [of q])
  qed
qed

lemma walk_levels: "walk n = concat (levels [n])"
  by (simp add: walk_def walk_queue_levels)

subsection \<open>The loops over the lines\<close>

lemma fold_issue_below:
  "key < int k + 1 \<Longrightarrow>
   fold (\<lambda>(i, line) iss. if P line then add_issue iss (int i + 1) (m line) else iss)
        (enumerate k ls) iss0 key = iss0 key"
  by (induction ls arbitrary: k iss0) (auto simp: add_issue_def)

lemma fold_issue_at:
  "j < length ls \<Longrightarrow>
   fold (\<lambda>(i, line) iss. if P line then add_issue iss (int i + 1) (m line) else iss)
        (enumerate k ls) iss0 (int (k + j) + 1) =
   (if P (ls ! j)
    then Some (insert (m (ls ! j)) (case iss0 (int (k + j) + 1) of None \<Rightarrow> {} | Some s \<Rightarrow> s))
    else iss0 (int (k + j) + 1))"
proof (induction ls arbitrary: k j iss0)
  case Nil
  then show ?case by simp
next
  case (Cons x xs)
  show ?case
  proof (cases j)
    case 0
    then show ?thesis
      by (simp add: fold_issue_below add_issue_def)
  next
    case (Suc j')
    then have "j' < length xs" using Cons.prems by simp
    from Cons.IH [OF this, of "Suc k"] show ?thesis
      by (simp add: Suc add_issue_def)
  qed
qed

lemma line_length_at:
  assumes "i < length (splitlines (code self))"
  shows "issues (line_length self) (int i + 1) =
     (if int (length (splitlines (code self) ! i)) > 79
      then Some (insert (line_too_long (int (length (splitlines (code self) ! i))) 79)
                  (case issues self (int i + 1) of None \<Rightarrow> {} | Some s \<Rightarrow> s))
      else issues self (int i + 1))"
  using fold_issue_at [OF assms, of "\<lambda>line. int (length line) > 79"
      "\<lambda>line. line_too_long (int (length line)) 79" 0 "issues self"]
  by (simp add: line_length_def RULES_def Let_def)

lemma forbid_semicolons_at:
  assumes "i < length (splitlines (code self))"
  shows "issues (forbid_semicolons self) (int i + 1) =
     (if 59 \<in> set (splitlines (code self) ! i)
      then Some (insert multiple_expressions
                  (case issues self (int i + 1) of None \<Rightarrow> {} | Some s \<Rightarrow> s))
      else issues self (int i + 1))"
  using fold_issue_at [OF assms, of "\<lambda>line. 59 \<in> set line" "\<lambda>line. multiple_expressions"
      0 "issues self"]
  by (simp add: forbid_semicolons_def)

subsection \<open>The indentation loop\<close>






subsection \<open>The methods on a module without statements\<close>

lemma has_body_map_of: "map_of (node_fields n) ''body'' = Some v \<Longrightarrow> has_body n"
  by (force simp: has_body_def dest: map_of_SomeD)

lemma analyze_methods_eq:
  "analyze_methods = {''forbid_semicolons'', ''forbid_trailing_whitespace'',
     ''indentation_size'', ''line_length'', ''max_arity'', ''max_lines_per_function'',
     ''max_nesting'', ''methods_per_class''}"
  by (auto simp: analyze_methods_def get_instance_methods_def)

lemma max_nesting_body0_error: "body0 (parsed_code self) = Inl e \<Longrightarrow> max_nesting self = Inl e"
  by (simp add: max_nesting_def)

lemma indentation_size_body0_error:
  "has_body (parsed_code self) \<Longrightarrow> body0 (parsed_code self) = Inl e \<Longrightarrow>
   indentation_size self = Inl e"
  by (simp add: indentation_size_def walk_def)

lemma call_method_other:
  assumes "m \<in> analyze_methods" and "m \<noteq> ''max_nesting''" and "m \<noteq> ''indentation_size''"
  shows "\<exists>self'. call_method m self = Inr self' \<and> parsed_code self' = parsed_code self"
  using assms
  by (auto simp: analyze_methods_eq call_method_def line_length_def forbid_semicolons_def
      methods_per_class_def max_arity_def forbid_trailing_whitespace_def
      max_lines_per_function_def Let_def)

lemma call_methods_body0_error:
  assumes "has_body (parsed_code self)" and "body0 (parsed_code self) = Inl e"
    and "set ms \<subseteq> analyze_methods"
    and "''max_nesting'' \<in> set ms \<or> ''indentation_size'' \<in> set ms"
  shows "call_methods ms self = Inl e"
  using assms
proof (induction ms arbitrary: self)
  case Nil
  then show ?case by simp
next
  case (Cons m ms)
  show ?case
  proof (cases "m = ''max_nesting''")
    case True
    then show ?thesis
      using max_nesting_body0_error [OF Cons.prems(2)] by (simp add: call_method_def)
  next
    case nm: False
    show ?thesis
    proof (cases "m = ''indentation_size''")
      case True
      then show ?thesis
        using indentation_size_body0_error [OF Cons.prems(1,2)] by (simp add: call_method_def)
    next
      case False
      have "m \<in> analyze_methods" using Cons.prems(3) by simp
      from call_method_other [OF this nm False, of self]
      obtain self' where s: "call_method m self = Inr self'"
        and p: "parsed_code self' = parsed_code self" by blast
      have "call_methods ms self' = Inl e"
      proof (rule Cons.IH)
        show "has_body (parsed_code self')" using Cons.prems(1) by (simp add: p)
        show "body0 (parsed_code self') = Inl e" using Cons.prems(2) by (simp add: p)
        show "set ms \<subseteq> analyze_methods" using Cons.prems(3) by simp
        show "''max_nesting'' \<in> set ms \<or> ''indentation_size'' \<in> set ms"
          using Cons.prems(4) nm False by auto
      qed
      then show ?thesis by (simp add: s)
    qed
  qed
qed


section \<open>The checks on the sample programs\<close>

lemma iteration_order_dir: "iteration_order dir_order analyze_methods"
  by (auto simp: iteration_order_def dir_order_def analyze_methods_def get_instance_methods_def)

lemma str_int_small: "str_int 3 = ''3''" "str_int 4 = ''4''" "str_int 5 = ''5''"
  "str_int 79 = ''79''" "str_int 80 = ''80''"
  by (simp_all add: str_int_def str_nat.simps digit_def)

lemma splitlines_nested:
  "splitlines nested_src = [text_of ''if a:'', text_of ''    if b:'', text_of ''        if c:'',
     text_of ''            if d:'', text_of ''                pass'']"
  by (simp add: splitlines_def nested_src_def text_of_def is_line_boundary_def)

lemma nested_lines_ok:
  "line_length \<lparr> parsed_code = t, code = nested_src, rules = r, issues = iss \<rparr>
     = \<lparr> parsed_code = t, code = nested_src, rules = r, issues = iss \<rparr>"
  "forbid_semicolons \<lparr> parsed_code = t, code = nested_src, rules = r, issues = iss \<rparr>
     = \<lparr> parsed_code = t, code = nested_src, rules = r, issues = iss \<rparr>"
  by (simp_all add: line_length_def forbid_semicolons_def splitlines_nested text_of_def RULES_def)

lemma walk_nested:
  "filter has_body (walk (If_node 1 0 (Name_node 1 3)
       [If_node 2 4 (Name_node 2 7)
         [If_node 3 8 (Name_node 3 11)
           [If_node 4 12 (Name_node 4 15) [Pass_node 5 16] []] []] []] [])) =
   [If_node 1 0 (Name_node 1 3)
       [If_node 2 4 (Name_node 2 7)
         [If_node 3 8 (Name_node 3 11)
           [If_node 4 12 (Name_node 4 15) [Pass_node 5 16] []] []] []] [],
    If_node 2 4 (Name_node 2 7)
         [If_node 3 8 (Name_node 3 11)
           [If_node 4 12 (Name_node 4 15) [Pass_node 5 16] []] []] [],
    If_node 3 8 (Name_node 3 11)
           [If_node 4 12 (Name_node 4 15) [Pass_node 5 16] []] [],
    If_node 4 12 (Name_node 4 15) [Pass_node 5 16] []]"
  by (simp add: walk_def If_node_def Name_node_def Pass_node_def Load_node_def
      iter_child_nodes_def field_nodes_def has_body_def)

lemma max_nesting_nested:
  "max_nesting \<lparr> parsed_code = nested_tree, code = s, rules = r, issues = iss \<rparr>
     = Inr \<lparr> parsed_code = nested_tree, code = s, rules = r,
             issues = add_issue iss 5 (Some ''nesting too deep (4 > 3)'') \<rparr>"
  apply (simp add: max_nesting_def nested_tree_def Module_node_def body0_def walk_nested Let_def
      max_nesting_level_def nesting_too_deep_def str_int_small)
  apply (simp add: If_node_def nesting_too_deep_def max_nesting_level_def str_int_small)
  done

lemma indentation_size_nested:
  "indentation_size \<lparr> parsed_code = nested_tree, code = s, rules = r, issues = iss \<rparr>
     = Inr \<lparr> parsed_code = nested_tree, code = s, rules = r, issues = iss \<rparr>"
  by (simp add: indentation_size_def nested_tree_def Module_node_def walk_def If_node_def
      Name_node_def Pass_node_def Load_node_def iter_child_nodes_def field_nodes_def has_body_def
      body0_def RULES_def)

lemma ast_parse_nested: "ast_parse nested_src = Inr nested_tree"
  by (simp add: ast_parse_def empty_src_def pass_src_def nested_src_def text_of_def)

lemma critic_nested:
  "''code'' \<notin> set (map fst rs) \<Longrightarrow>
   critic ast_parse dir_order nested_src rs =
     Inr (Map.empty(5 \<mapsto> {Some ''nesting too deep (4 > 3)''}))"
  by (simp add: critic_def CodeAnalyzer_init_def ast_parse_nested analyze_def truthy_def
      dir_order_def call_method_def nested_lines_ok max_nesting_nested
      indentation_size_nested methods_per_class_def max_arity_def
      forbid_trailing_whitespace_def max_lines_per_function_def add_issue_def)

lemma pass_lines_ok:
  "line_length \<lparr> parsed_code = t, code = pass_src, rules = r, issues = iss \<rparr>
     = \<lparr> parsed_code = t, code = pass_src, rules = r, issues = iss \<rparr>"
  "forbid_semicolons \<lparr> parsed_code = t, code = pass_src, rules = r, issues = iss \<rparr>
     = \<lparr> parsed_code = t, code = pass_src, rules = r, issues = iss \<rparr>"
  by (simp_all add: line_length_def forbid_semicolons_def splitlines_def pass_src_def text_of_def
      RULES_def is_line_boundary_def)

lemma pass_tree_ok:
  "max_nesting \<lparr> parsed_code = pass_tree, code = s, rules = r, issues = iss \<rparr>
     = Inr \<lparr> parsed_code = pass_tree, code = s, rules = r, issues = iss \<rparr>"
  "indentation_size \<lparr> parsed_code = pass_tree, code = s, rules = r, issues = iss \<rparr>
     = Inr \<lparr> parsed_code = pass_tree, code = s, rules = r, issues = iss \<rparr>"
  by (simp_all add: max_nesting_def indentation_size_def pass_tree_def Module_node_def
      Pass_node_def body0_def walk_def iter_child_nodes_def field_nodes_def has_body_def
      max_nesting_level_def RULES_def)

lemma ast_parse_pass: "ast_parse pass_src = Inr pass_tree"
  by (simp add: ast_parse_def empty_src_def pass_src_def text_of_def)

lemma critic_pass:
  "''code'' \<notin> set (map fst rs) \<Longrightarrow> critic ast_parse dir_order pass_src rs = Inr Map.empty"
  by (simp add: critic_def CodeAnalyzer_init_def ast_parse_pass analyze_def truthy_def
      dir_order_def call_method_def pass_lines_ok pass_tree_ok methods_per_class_def
      max_arity_def forbid_trailing_whitespace_def max_lines_per_function_def)

lemma splitlines_long: "splitlines long_src = [long_src]"
  by (simp add: splitlines_def long_src_def text_of_def is_line_boundary_def)

lemma splitlines_semi: "splitlines semi_src = [semi_src]"
  by (simp add: splitlines_def semi_src_def text_of_def is_line_boundary_def)

lemma ast_parse_broken: "ast_parse broken_src = Inl SyntaxError"
  by (simp add: ast_parse_def broken_src_def empty_src_def pass_src_def nested_src_def
      branch_src_def indent4_src_def indent5_src_def long_src_def semi_src_def text_of_def)

lemma walk_branch:
  "filter has_body (walk branch_def) =
   [branch_def,
    If_node 2 4 (Name_node 2 7) [If_node 3 8 (Name_node 3 11) [Pass_node 4 12] []] [],
    If_node 5 4 (Name_node 5 7) [Pass_node 6 8] [],
    If_node 3 8 (Name_node 3 11) [Pass_node 4 12] []]"
  by (simp add: walk_def branch_def_def FunctionDef_node_def arguments_node_def If_node_def
      Name_node_def Pass_node_def Load_node_def iter_child_nodes_def field_nodes_def has_body_def)

lemma subtree_branch:
  "filter has_body (subtree branch_def) =
   [branch_def,
    If_node 2 4 (Name_node 2 7) [If_node 3 8 (Name_node 3 11) [Pass_node 4 12] []] [],
    If_node 3 8 (Name_node 3 11) [Pass_node 4 12] [],
    If_node 5 4 (Name_node 5 7) [Pass_node 6 8] []]"
  by (simp add: subtree.simps branch_def_def FunctionDef_node_def arguments_node_def If_node_def
      Name_node_def Pass_node_def Load_node_def iter_child_nodes_def field_nodes_def has_body_def)

lemma max_nesting_branch:
  "max_nesting \<lparr> parsed_code = branch_tree, code = s, rules = r, issues = iss \<rparr>
     = Inr \<lparr> parsed_code = branch_tree, code = s, rules = r,
             issues = add_issue iss 4 (Some ''nesting too deep (4 > 3)'') \<rparr>"
  apply (simp add: max_nesting_def branch_tree_def Module_node_def body0_def walk_branch Let_def
      max_nesting_level_def nesting_too_deep_def str_int_small)
  apply (simp add: If_node_def nesting_too_deep_def max_nesting_level_def str_int_small)
  done







section \<open>The claims\<close>

text \<open>
  Claim C1 says that the empty source text gives an empty IssueSink and no error. The
  program does not: the module of the empty text has an empty body, \<open>max_nesting\<close>
  indexes it with \<open>self.parsed_code.body[0]\<close> and \<open>indentation_size\<close> with
  \<open>node.body[0]\<close>, and whichever of the two is called first raises IndexError. So in
  every order of the methods \<open>critic\<close> raises IndexError on the empty text, whatever
  overrides the call binds to \<open>rules\<close>.
\<close>

theorem critic_empty_source_raises:
  assumes "iteration_order order analyze_methods"
    and "parse [] = Inr m"
    and "map_of (node_fields m) ''body'' = Some (Children [])"
    and "''code'' \<notin> set (map fst rs)"
  shows "critic parse order [] rs = Inl IndexError"
proof -
  let ?self = "\<lparr> parsed_code = m, code = [], rules = None, issues = Map.empty \<rparr>"
  have hb: "has_body (parsed_code ?self)"
    using has_body_map_of [OF assms(3)] by simp
  have b0: "body0 (parsed_code ?self) = Inl IndexError"
    by (simp add: body0_def assms(3))
  have sub: "set order \<subseteq> analyze_methods"
    using assms(1) by (simp add: iteration_order_def)
  have mem: "''max_nesting'' \<in> set order \<or> ''indentation_size'' \<in> set order"
    using assms(1) by (simp add: iteration_order_def analyze_methods_eq)
  have "call_methods order ?self = Inl IndexError"
    using call_methods_body0_error [OF hb b0 sub mem] .
  then show ?thesis
    using assms(4) by (simp add: critic_def CodeAnalyzer_init_def assms(2) analyze_def truthy_def)
qed

theorem critic_empty_source_raises_witness:
  "iteration_order dir_order analyze_methods \<and> ast_parse [] = Inr empty_tree
   \<and> map_of (node_fields empty_tree) ''body'' = Some (Children [])
   \<and> ''code'' \<notin> set (map fst [(''line_length'', PyInt 100)])
   \<and> critic ast_parse dir_order [] [] = Inl IndexError
   \<and> critic ast_parse dir_order [] [(''line_length'', PyInt 100)] = Inl IndexError"
proof -
  have o: "iteration_order dir_order analyze_methods" by (rule iteration_order_dir)
  have p: "ast_parse [] = Inr empty_tree" by (simp add: ast_parse_def empty_src_def)
  have b: "map_of (node_fields empty_tree) ''body'' = Some (Children [])"
    by (simp add: empty_tree_def Module_node_def)
  have n: "''code'' \<notin> set (map fst [])" by simp
  have c: "''code'' \<notin> set (map fst [(''line_length'', PyInt 100)])" by simp
  show ?thesis
    using o p b c
      critic_empty_source_raises [of dir_order ast_parse empty_tree "[]", OF o p b n]
      critic_empty_source_raises [of dir_order ast_parse empty_tree
        "[(''line_length'', PyInt 100)]", OF o p b c]
    by simp
qed

text \<open>
  Claim C2 says that with the default rules, where \<open>max_nesting\<close> is \<open>None\<close>, the
  nesting check never fires. The program does not read \<open>RULES\<close> in \<open>max_nesting\<close>: the
  limit is the constant 3 of the method. On four conditionals nested in each other, with
  no override, \<open>critic\<close> reports "nesting too deep (4 > 3)" under line 5.
\<close>

theorem max_nesting_fires_by_default:
  "rule_max_nesting RULES = None \<and>
   critic ast_parse dir_order nested_src [] =
     Inr (Map.empty(5 \<mapsto> {Some ''nesting too deep (4 > 3)''}))"
  by (simp add: RULES_def critic_nested)

text \<open>
  Claim C3 says that for every source text and every dict of overrides
  \<open>critic(code, **rules)\<close> returns what \<open>critic(code)\<close> returns. Counterexample: the
  override named \<open>code\<close>. \<open>critic('pass', **{'code': 1})\<close> raises TypeError, and
  \<open>critic('pass')\<close> returns the empty IssueSink.
\<close>

theorem critic_code_override_counterexample:
  "critic ast_parse dir_order pass_src [(''code'', PyInt 1)] = Inl TypeError
   \<and> critic ast_parse dir_order pass_src [] = Inr Map.empty"
  by (simp add: critic_pass) (simp add: critic_def)

text \<open>
  Claim C3 as amended: for every source text and every dict of overrides that has no key
  \<open>code\<close>, \<open>critic(code, **rules)\<close> returns what \<open>critic(code)\<close> returns, so these
  overrides have no effect on the result; with the key \<open>code\<close> the call raises
  TypeError.
\<close>

theorem critic_ignores_overrides:
  "critic parse order src rs =
     (if ''code'' \<in> set (map fst rs) then Inl TypeError else critic parse order src [])"
  by (simp add: critic_def)

theorem critic_ignores_overrides_witness:
  "critic ast_parse dir_order nested_src [(''max_nesting'', PyInt 10)] =
     critic ast_parse dir_order nested_src []
   \<and> critic ast_parse dir_order nested_src [] =
     Inr (Map.empty(5 \<mapsto> {Some ''nesting too deep (4 > 3)''}))
   \<and> critic ast_parse dir_order nested_src [(''code'', PyInt 10)] = Inl TypeError"
  using critic_ignores_overrides [of ast_parse dir_order nested_src "[(''max_nesting'', PyInt 10)]"]
    critic_ignores_overrides [of ast_parse dir_order nested_src "[(''code'', PyInt 10)]"]
  by (simp add: critic_nested)

text \<open>
  Claim C4 says that an override whose key is no rule name makes the analysis fail with
  ConfigError before any check runs. The program has no such check: \<open>critic\<close> never
  looks at the overrides. Counterexample: \<open>critic('pass', bogus=1)\<close> returns the empty
  IssueSink.
\<close>

theorem critic_unknown_rule_counterexample:
  "''bogus'' \<notin> set rule_names \<and>
   critic ast_parse dir_order pass_src [(''bogus'', PyInt 1)] = Inr Map.empty"
  by (simp add: rule_names_def critic_pass)

text \<open>
  Claim C4 as amended: an override whose key is no rule name raises no ConfigError. If
  the key is \<open>code\<close>, the call itself raises TypeError, before the source is parsed and
  before any check runs; every other such key is ignored, and \<open>critic\<close> returns what it
  returns for the overrides without that key.
\<close>

theorem critic_unknown_rule_ignored:
  assumes "k \<notin> set rule_names" and "(k, v) \<in> set rs"
  shows "(k = ''code'' \<longrightarrow> critic parse order src rs = Inl TypeError)
       \<and> (k \<noteq> ''code'' \<longrightarrow>
            critic parse order src rs =
              critic parse order src (filter (\<lambda>(k', v'). k' \<noteq> k) rs))"
proof (cases "k = ''code''")
  case True
  have "k \<in> set (map fst rs)" using assms(2) by force
  then show ?thesis using True by (simp add: critic_def)
next
  case False
  have "''code'' \<in> set (map fst (filter (\<lambda>(k', v'). k' \<noteq> k) rs))
        \<longleftrightarrow> ''code'' \<in> set (map fst rs)"
    using False by force
  then show ?thesis using False by (simp add: critic_def)
qed

theorem critic_unknown_rule_ignored_witness:
  "''bogus'' \<notin> set rule_names
   \<and> (''bogus'', PyInt 1) \<in> set [(''line_length'', PyInt 2), (''bogus'', PyInt 1)]
   \<and> critic ast_parse dir_order nested_src [(''line_length'', PyInt 2), (''bogus'', PyInt 1)] =
       critic ast_parse dir_order nested_src [(''line_length'', PyInt 2)]
   \<and> critic ast_parse dir_order nested_src [(''line_length'', PyInt 2)] =
       Inr (Map.empty(5 \<mapsto> {Some ''nesting too deep (4 > 3)''}))
   \<and> ''code'' \<notin> set rule_names
   \<and> critic ast_parse dir_order nested_src [(''code'', PyInt 1)] = Inl TypeError"
proof -
  have k: "''bogus'' \<notin> set rule_names" by (simp add: rule_names_def)
  have m: "(''bogus'', PyInt 1) \<in> set [(''line_length'', PyInt 2), (''bogus'', PyInt 1)]"
    by simp
  have k': "''code'' \<notin> set rule_names" by (simp add: rule_names_def)
  have m': "(''code'', PyInt 1) \<in> set [(''code'', PyInt 1)]" by simp
  show ?thesis
    using k m k'
      critic_unknown_rule_ignored [OF k m, of ast_parse dir_order nested_src]
      critic_unknown_rule_ignored [OF k' m', of ast_parse dir_order nested_src]
    by (simp add: critic_nested)
qed

text \<open>
  Claim C5 says that the nesting check reports under the line after the line of the last
  body-bearing node of the subtree of the first top-level statement. Counterexample: a
  function with a conditional that holds a second one (lines 2 and 3) and a third
  conditional after them (line 5). The last body-bearing node of the subtree is the
  conditional of line 5, so the claim gives line 6; the check reports under line 4, the
  line after the nested conditional, which the breadth-first walk yields last.
\<close>

theorem max_nesting_line_counterexample:
  "body0 branch_tree = Inr branch_def
   \<and> lineno (last (filter has_body (subtree branch_def))) = Some 5
   \<and> max_nesting \<lparr> parsed_code = branch_tree, code = branch_src, rules = None,
                    issues = Map.empty \<rparr>
     = Inr \<lparr> parsed_code = branch_tree, code = branch_src, rules = None,
             issues = Map.empty(4 \<mapsto> {Some ''nesting too deep (4 > 3)''}) \<rparr>"
proof -
  have a: "body0 branch_tree = Inr branch_def"
    by (simp add: branch_tree_def Module_node_def body0_def)
  have b: "lineno (last (filter has_body (subtree branch_def))) = Some 5"
    unfolding subtree_branch by (simp add: If_node_def)
  show ?thesis
    using a b by (simp add: max_nesting_branch add_issue_def)
qed

text \<open>
  Claim C5 as amended: for a source text with at least one top-level statement, the
  nesting check counts every node with a field \<open>body\<close> in the subtree of the first
  top-level statement (the total over the subtree, \<open>body_bearing_count\<close>, not a depth).
  When the count exceeds the limit the check applies, it adds
  "nesting too deep (count > limit)" under the line after the line of the counted node
  that is last in breadth-first order (level by level, \<open>levels\<close>), and raises
  AttributeError when that node carries no line number; otherwise it leaves the issues
  as they are. The limit is \<open>max_nesting_level\<close>.
\<close>

theorem max_nesting_counts_body_nodes:
  assumes "body0 (parsed_code self) = Inr stmt"
  shows "max_nesting self =
     (if int (body_bearing_count stmt) > max_nesting_level
      then (case lineno (last (filter has_body (concat (levels [stmt])))) of
              None \<Rightarrow> Inl AttributeError
            | Some l \<Rightarrow>
                Inr (self\<lparr>issues := add_issue (issues self) (l + 1)
                       (Some (''nesting too deep ('' @ str_int (int (body_bearing_count stmt))
                              @ '' > '' @ str_int max_nesting_level @ '')''))\<rparr>))
      else Inr self)"
proof -
  let ?nodes = "filter has_body (walk stmt)"
  have len: "length ?nodes = body_bearing_count stmt"
    by (simp add: body_bearing_count_def length_filter_walk)
  have lv: "filter has_body (concat (levels [stmt])) = ?nodes"
    by (simp only: walk_levels)
  show ?thesis
  proof (cases "int (body_bearing_count stmt) > max_nesting_level")
    case True
    then have ne: "?nodes \<noteq> []" using len by (auto simp: max_nesting_level_def)
    have "?nodes ! (length ?nodes - 1) = last ?nodes"
      using ne by (simp add: last_conv_nth)
    then show ?thesis
      using True len
      by (simp add: max_nesting_def assms Let_def nesting_too_deep_def lv split: option.splits)
  next
    case False
    then show ?thesis
      using len by (simp add: max_nesting_def assms Let_def)
  qed
qed

theorem max_nesting_counts_body_nodes_witness:
  "max_nesting \<lparr> parsed_code = nested_tree, code = nested_src, rules = None, issues = Map.empty \<rparr>
     = Inr \<lparr> parsed_code = nested_tree, code = nested_src, rules = None,
             issues = Map.empty(5 \<mapsto> {Some ''nesting too deep (4 > 3)''}) \<rparr>
   \<and> max_nesting \<lparr> parsed_code = pass_tree, code = pass_src, rules = None, issues = Map.empty \<rparr>
     = Inr \<lparr> parsed_code = pass_tree, code = pass_src, rules = None, issues = Map.empty \<rparr>"
proof -
  let ?stmt = "If_node 1 0 (Name_node 1 3)
       [If_node 2 4 (Name_node 2 7)
         [If_node 3 8 (Name_node 3 11)
           [If_node 4 12 (Name_node 4 15) [Pass_node 5 16] []] []] []] []"
  let ?self = "\<lparr> parsed_code = nested_tree, code = nested_src, rules = None,
                 issues = Map.empty \<rparr>"
  let ?pass = "\<lparr> parsed_code = pass_tree, code = pass_src, rules = None,
                 issues = Map.empty \<rparr>"
  have b: "body0 (parsed_code ?self) = Inr ?stmt"
    by (simp add: nested_tree_def Module_node_def body0_def)
  have c: "body_bearing_count ?stmt = 4"
    using length_filter_walk [of has_body ?stmt]
    by (simp add: body_bearing_count_def walk_nested)
  have l: "lineno (last (filter has_body (concat (levels [?stmt])))) = Some 4"
    unfolding walk_levels [symmetric] walk_nested by (simp add: If_node_def)
  have b': "body0 (parsed_code ?pass) = Inr (Pass_node 1 0)"
    by (simp add: pass_tree_def Module_node_def body0_def)
  have c': "body_bearing_count (Pass_node 1 0) = 0"
    by (simp add: body_bearing_count_def subtree.simps Pass_node_def iter_child_nodes_def
        has_body_def)
  show ?thesis
    using max_nesting_counts_body_nodes [OF b] max_nesting_counts_body_nodes [OF b']
    by (simp add: c c' l max_nesting_level_def str_int_small add_issue_def)
qed



text \<open>
  Claim C7: the limit is 79; for every line of the source, a line of exactly that length
  gets no issue from the line-length check, and a line of length 80 or more gets exactly
  the message "line too long (L > 79)" added under its number, counted from 1.
\<close>

theorem line_length_boundary:
  assumes "i < length (splitlines (code self))"
    and "len = int (length (splitlines (code self) ! i))"
  shows "rule_line_length RULES = 79
       \<and> (len = rule_line_length RULES \<longrightarrow>
            issues (line_length self) (int i + 1) = issues self (int i + 1))
       \<and> (len \<ge> rule_line_length RULES + 1 \<longrightarrow>
            issues (line_length self) (int i + 1) =
              Some (insert (Some (''line too long ('' @ str_int len @ '' > ''
                                  @ str_int (rule_line_length RULES) @ '')''))
                      (case issues self (int i + 1) of None \<Rightarrow> {} | Some s \<Rightarrow> s)))"
  using line_length_at [OF assms(1)] assms(2)
  by (auto simp: RULES_def line_too_long_def)

theorem line_length_boundary_witness:
  "issues (line_length \<lparr> parsed_code = long_tree, code = long_src, rules = None,
                         issues = Map.empty \<rparr>) 1
     = Some {Some ''line too long (80 > 79)''}"
proof -
  let ?self = "\<lparr> parsed_code = long_tree, code = long_src, rules = None, issues = Map.empty \<rparr>"
  have i: "0 < length (splitlines (code ?self))" by (simp add: splitlines_long)
  have n: "80 = int (length (splitlines (code ?self) ! 0))"
    by (simp add: splitlines_long) (simp add: long_src_def text_of_def)
  show ?thesis
    using line_length_boundary [OF i n] by (simp add: RULES_def str_int_small)
qed

text \<open>
  Claim C8: for every line of the source, if the line contains a semicolon (code point
  59), the semicolon check adds the message "multiple expressions on the same line" to
  the set of that line, once, however many semicolons there are; a line without
  semicolon gets nothing from the check.
\<close>

theorem forbid_semicolons_once_per_line:
  assumes "i < length (splitlines (code self))"
    and "line = splitlines (code self) ! i"
  shows "(59 \<in> set line \<longrightarrow>
            issues (forbid_semicolons self) (int i + 1) =
              Some (insert (Some ''multiple expressions on the same line'')
                      (case issues self (int i + 1) of None \<Rightarrow> {} | Some s \<Rightarrow> s)))
       \<and> (59 \<notin> set line \<longrightarrow>
            issues (forbid_semicolons self) (int i + 1) = issues self (int i + 1))"
  using forbid_semicolons_at [OF assms(1)] assms(2)
  by (simp add: multiple_expressions_def)

theorem forbid_semicolons_once_per_line_witness:
  "issues (forbid_semicolons \<lparr> parsed_code = semi_tree, code = semi_src, rules = None,
                               issues = Map.empty \<rparr>) 1
     = Some {Some ''multiple expressions on the same line''}"
proof -
  let ?self = "\<lparr> parsed_code = semi_tree, code = semi_src, rules = None, issues = Map.empty \<rparr>"
  have i: "0 < length (splitlines (code ?self))" by (simp add: splitlines_semi)
  have n: "semi_src = splitlines (code ?self) ! 0" by (simp add: splitlines_semi)
  have m: "59 \<in> set semi_src" by (simp add: semi_src_def text_of_def)
  show ?thesis
    using forbid_semicolons_once_per_line [OF i n] m by simp
qed

text \<open>
  Claim C9: when the parser raises SyntaxError on the source text, the constructor of
  CodeAnalyzer raises it, and so does \<open>critic\<close>; the result of \<open>critic\<close> is an error or
  an IssueSink, never both.
\<close>

theorem syntax_error_surfaces:
  assumes "parse src = Inl SyntaxError" and "''code'' \<notin> set (map fst rs)"
  shows "CodeAnalyzer_init parse src r = Inl SyntaxError
       \<and> critic parse order src rs = Inl SyntaxError"
  using assms by (simp add: critic_def CodeAnalyzer_init_def)

theorem syntax_error_surfaces_witness:
  "ast_parse broken_src = Inl SyntaxError
   \<and> ''code'' \<notin> set (map fst [(''line_length'', PyInt 100)])
   \<and> CodeAnalyzer_init ast_parse broken_src None = Inl SyntaxError
   \<and> critic ast_parse dir_order broken_src [] = Inl SyntaxError
   \<and> critic ast_parse dir_order broken_src [(''line_length'', PyInt 100)] = Inl SyntaxError"
proof -
  have n: "''code'' \<notin> set (map fst [])" by simp
  have c: "''code'' \<notin> set (map fst [(''line_length'', PyInt 100)])" by simp
  show ?thesis
    using ast_parse_broken c
      syntax_error_surfaces [of ast_parse broken_src "[]" None dir_order, OF ast_parse_broken n]
      syntax_error_surfaces [of ast_parse broken_src "[(''line_length'', PyInt 100)]" None
        dir_order, OF ast_parse_broken c]
    by simp
qed

text \<open>
  Claim C10: a CodeAnalyzer constructed with a non-empty dict of rules, on a source text
  that parses, calls no check in \<open>analyze\<close> and returns the empty IssueSink.
\<close>

theorem analyze_with_rules_runs_nothing:
  assumes "parse src = Inr tree" and "d \<noteq> []"
  shows "(case CodeAnalyzer_init parse src (Some d) of
            Inl e \<Rightarrow> Inl e
          | Inr self \<Rightarrow> analyze order self) = Inr Map.empty"
  by (simp add: CodeAnalyzer_init_def assms analyze_def truthy_def)

theorem analyze_with_rules_runs_nothing_witness:
  "ast_parse nested_src = Inr nested_tree \<and> [(''max_nesting'', PyInt 1)] \<noteq> []
   \<and> (case CodeAnalyzer_init ast_parse nested_src (Some [(''max_nesting'', PyInt 1)]) of
         Inl e \<Rightarrow> Inl e
       | Inr self \<Rightarrow> analyze dir_order self) = Inr Map.empty"
proof -
  have d: "[(''max_nesting'', PyInt 1)] \<noteq> []" by simp
  show ?thesis
    using ast_parse_nested d
      analyze_with_rules_runs_nothing [of ast_parse nested_src nested_tree
        "[(''max_nesting'', PyInt 1)]" dir_order, OF ast_parse_nested d]
    by simp
qed

end
